theory Spec2Isabelle
  imports Main
begin

section \<open>The Configuration component of giscus (src/components/Configuration.tsx)\<close>

text \<open>
  The component keeps seven pieces of hook state and the debounced repository
  identifier \<open>dRepository\<close>. Every event handler of the component is a function from
  state to state. The calls of \<open>getCategories\<close> are asynchronous: the state records the
  log of calls made so far (\<open>calls\<close>) and the indices of the calls whose promise has not
  settled yet (\<open>pending\<close>); the environment decides when, and in which order, they settle.
\<close>

subsection \<open>Data\<close>

text \<open>\<open>ICategory\<close>: the fields the component destructures, \<open>{ id, emoji, name }\<close>.\<close>

record ICategory =
  cat_id :: string
  emoji :: string
  name :: string

text \<open>What \<open>getCategories\<close> resolves to: \<open>{ repositoryId, categories }\<close>.\<close>

record lookup_result =
  res_repositoryId :: string
  res_categories :: "ICategory list"

text \<open>\<open>interface DirectConfig\<close> (lines 95-98), a prop of the component.\<close>

record DirectConfig =
  theme :: string
  reactionsEnabled :: bool

text \<open>
  The \<open>useState\<close> cells of lines 106-112, the value of \<open>useDebounce(repository)\<close>
  of line 113, and the two fields of the asynchronous environment.
  The field \<open>term_str\<close> is the source's \<open>term\<close>.
\<close>

record config =
  repository :: string
  repositoryId :: string
  categoryId :: string
  error :: bool
  categories :: "ICategory list"
  mapping :: string
  term_str :: string
  dRepository :: string
  calls :: "string list"
  pending :: "nat list"

text \<open>The initial values of the \<open>useState\<close> calls; no lookup has been made.\<close>

definition init_config :: config where
  "init_config =
     \<lparr> repository = [], repositoryId = [], categoryId = [], error = False,
       categories = [], mapping = ''pathname'', term_str = [], dRepository = [],
       calls = [], pending = [] \<rparr>"

text \<open>The \<open>value\<close> fields of \<open>mappingOptions\<close> (lines 9-75), in order.\<close>

definition mappingOptions :: "string list" where
  "mappingOptions = [''pathname'', ''url'', ''title'', ''og:title'', ''specific'', ''number'']"

text \<open>\<open>['specific', 'number'].includes(mapping)\<close> (lines 244 and 328).\<close>

definition needs_term :: "string \<Rightarrow> bool" where
  "needs_term m = (m \<in> set [''specific'', ''number''])"

subsection \<open>The lookup effect (lines 115-130)\<close>

text \<open>
  \<open>getCategories(dRepository)\<close>: the call is appended to the log and its index becomes
  pending. Nothing else happens until the promise settles.
\<close>

definition getCategories :: "string \<Rightarrow> config \<Rightarrow> config" where
  "getCategories r s = s\<lparr> calls := calls s @ [r], pending := pending s @ [length (calls s)] \<rparr>"

text \<open>
  The body of the effect: the four resets of lines 116-119, then the lookup when
  \<open>dRepository\<close> is truthy, that is, a non-empty string.
\<close>

definition useEffect_body :: "config \<Rightarrow> config" where
  "useEffect_body s =
     (let s1 = s\<lparr> error := False, repositoryId := [], categoryId := [], categories := [] \<rparr>
      in if dRepository s1 \<noteq> [] then getCategories (dRepository s1) s1 else s1)"

text \<open>
  The effect has the dependency list \<open>[dRepository]\<close>: when the debounced hook returns a
  value, React runs the body only if the value differs from the one of the last render.
\<close>

definition dRepository_change :: "string \<Rightarrow> config \<Rightarrow> config" where
  "dRepository_change v s =
     (if v = dRepository s then s else useEffect_body (s\<lparr> dRepository := v \<rparr>))"

text \<open>The \<open>.then\<close> handler of lines 122-125 and the \<open>.catch\<close> handler of lines 126-128.\<close>

definition then_handler :: "lookup_result \<Rightarrow> config \<Rightarrow> config" where
  "then_handler r s = s\<lparr> repositoryId := res_repositoryId r, categories := res_categories r \<rparr>"

definition catch_handler :: "config \<Rightarrow> config" where
  "catch_handler s = s\<lparr> error := True \<rparr>"

text \<open>
  The chain \<open>getCategories(dRepository).then(...).catch(...)\<close>. A stage carries the
  reason of a rejection not handled so far (\<open>None\<close> when the promise is fulfilled) and
  the state. \<open>.then\<close> runs its handler on a fulfilment (\<open>Inr\<close>) and passes a
  rejection (\<open>Inl\<close>, with any reason) on; \<open>.catch\<close> runs its handler on a rejection
  and fulfils. The handlers call the setters only, which do not throw.
\<close>

definition then_stage :: "'e + lookup_result \<Rightarrow> config \<Rightarrow> 'e option \<times> config" where
  "then_stage outcome s =
     (case outcome of Inl e \<Rightarrow> (Some e, s) | Inr r \<Rightarrow> (None, then_handler r s))"

definition catch_stage :: "'e option \<times> config \<Rightarrow> 'e option \<times> config" where
  "catch_stage p = (case fst p of Some e \<Rightarrow> (None, catch_handler (snd p)) | None \<Rightarrow> p)"

definition lookup_chain :: "'e + lookup_result \<Rightarrow> config \<Rightarrow> 'e option \<times> config" where
  "lookup_chain outcome s = catch_stage (then_stage outcome s)"

text \<open>
  The promise of call \<open>k\<close> settles: it leaves the pending list and the chain runs.
  The handlers close over the setters only, so the chain does not look at the
  identifier the call was made for, nor at the current \<open>dRepository\<close>.
\<close>

definition settle :: "nat \<Rightarrow> 'e + lookup_result \<Rightarrow> config \<Rightarrow> config" where
  "settle k outcome s = snd (lookup_chain outcome (s\<lparr> pending := removeAll k (pending s) \<rparr>))"

subsection \<open>The other event handlers\<close>

text \<open>Line 167, line 208, lines 235-238 and line 248.\<close>

definition repository_onChange :: "string \<Rightarrow> config \<Rightarrow> config" where
  "repository_onChange v s = s\<lparr> repository := v \<rparr>"

definition category_onChange :: "string \<Rightarrow> config \<Rightarrow> config" where
  "category_onChange v s = s\<lparr> categoryId := v \<rparr>"

definition mapping_onChange :: "string \<Rightarrow> config \<Rightarrow> config" where
  "mapping_onChange v s = s\<lparr> term_str := [], mapping := v \<rparr>"

definition term_onChange :: "string \<Rightarrow> config \<Rightarrow> config" where
  "term_onChange v s = s\<lparr> term_str := v \<rparr>"

subsection \<open>The validation display (lines 173-198)\<close>

text \<open>
  The component stores no tagged validation state: the three-way conditional of the
  render decides what is shown. The first branch is the error message, the second the
  success message, the third the neutral hint, with the spinner when a lookup is awaited.
\<close>

datatype validation = Idle | Pending | Success | Error

definition validation_state :: "config \<Rightarrow> validation" where
  "validation_state s =
     (if error s \<or> (repositoryId s \<noteq> [] \<and> categories s = []) then Error
      else if repositoryId s \<noteq> [] \<and> categories s \<noteq> [] then Success
      else if \<not> error s \<and> repositoryId s = [] \<and> dRepository s \<noteq> [] then Pending
      else Idle)"

subsection \<open>The snippet (lines 310-350)\<close>

text \<open>JavaScript's \<open>a || b\<close> on strings: \<open>a\<close> unless it is the empty string.\<close>

definition or_else :: "string \<Rightarrow> string \<Rightarrow> string" where
  "or_else a b = (if a \<noteq> [] then a else b)"

text \<open>
  The attribute lines of the \<open><pre>\<close> element, each a name and the text of its value
  span, in the order of the source. The \<open>data-term\<close> fragment is rendered only under
  the condition of line 328.
\<close>

definition snippet_attrs :: "config \<Rightarrow> DirectConfig \<Rightarrow> (string \<times> string) list" where
  "snippet_attrs s dc =
     [ (''src'', ''https://giscus.app/client.js''),
       (''data-repo'', or_else (repository s) ''[ENTER REPO HERE]''),
       (''data-repo-id'', or_else (repositoryId s) ''[ENTER REPO ID HERE]''),
       (''data-category-id'', or_else (categoryId s) ''[ENTER CATEGORY ID HERE]''),
       (''data-mapping'', mapping s) ]
     @ (if needs_term (mapping s)
        then [ (''data-term'', or_else (term_str s) ''[ENTER TERM HERE]'') ]
        else [])
     @ [ (''data-reactions-enabled'', if reactionsEnabled dc then ''1'' else ''0''),
         (''data-theme'', theme dc),
         (''crossorigin'', ''anonymous'') ]"

text \<open>
  The text of one attribute line: the name, \<open>=\<close>, the value between double quotes, a
  line feed and eight spaces.
\<close>

definition attr_line :: "string \<times> string \<Rightarrow> string" where
  "attr_line nv =
     fst nv @ ''='' @ [CHR 0x22] @ snd nv @ [CHR 0x22, CHR 0x0A] @ replicate 8 (CHR '' '')"

text \<open>The text content of the \<open><pre>\<close> element.\<close>

definition snippet_text :: "config \<Rightarrow> DirectConfig \<Rightarrow> string" where
  "snippet_text s dc =
     ''<script '' @ concat (map attr_line (snippet_attrs s dc)) @ ''async>''
     @ [CHR 0x0A] @ ''</script>''"

text \<open>The value the snippet shows for an attribute, if the attribute is rendered.\<close>

definition attr_value :: "string \<Rightarrow> config \<Rightarrow> DirectConfig \<Rightarrow> string option" where
  "attr_value n s dc = map_of (snippet_attrs s dc) n"

subsection \<open>Events and runs\<close>

text \<open>
  What can happen to a mounted component: the user types in the repository input, the
  debounced hook returns a value, a pending lookup settles, the user picks an option of
  the category select, picks a mapping radio button, or types in the term input.
\<close>

datatype 'e event =
    RepositoryInput string
  | DRepositoryChange string
  | LookupSettled nat "'e + lookup_result"
  | CategorySelect string
  | MappingSelect string
  | TermInput string

text \<open>
  An event is possible only if the page offers it: a lookup settles once, while it is
  pending; the category select offers the ids of the stored categories (its empty
  option is disabled, and so is the whole select when there is no category, lines
  206-220); the radio buttons are those of \<open>mappingOptions\<close>; the term input is
  rendered only under the condition of line 244.
\<close>

fun enabled :: "'e event \<Rightarrow> config \<Rightarrow> bool" where
  "enabled (RepositoryInput v) s = True"
| "enabled (DRepositoryChange v) s = True"
| "enabled (LookupSettled k outcome) s = (k \<in> set (pending s))"
| "enabled (CategorySelect v) s = (v \<in> set (map cat_id (categories s)))"
| "enabled (MappingSelect v) s = (v \<in> set mappingOptions)"
| "enabled (TermInput v) s = needs_term (mapping s)"

fun fire :: "'e event \<Rightarrow> config \<Rightarrow> config" where
  "fire (RepositoryInput v) s = repository_onChange v s"
| "fire (DRepositoryChange v) s = dRepository_change v s"
| "fire (LookupSettled k outcome) s = settle k outcome s"
| "fire (CategorySelect v) s = category_onChange v s"
| "fire (MappingSelect v) s = mapping_onChange v s"
| "fire (TermInput v) s = term_onChange v s"

fun run :: "'e event list \<Rightarrow> config \<Rightarrow> config option" where
  "run [] s = Some s"
| "run (e # es) s = (if enabled e s then run es (fire e s) else None)"

text \<open>
  A run is sequential when at most one lookup is pending after each of its events:
  every result arrives before the next lookup is issued.
\<close>

fun sequential :: "'e event list \<Rightarrow> config \<Rightarrow> bool" where
  "sequential [] s = True"
| "sequential (e # es) s = (length (pending (fire e s)) \<le> 1 \<and> sequential es (fire e s))"

text \<open>The selected category is the empty option or one of the stored categories.\<close>

definition category_inv :: "config \<Rightarrow> bool" where
  "category_inv s = (categoryId s = [] \<or> categoryId s \<in> set (map cat_id (categories s)))"

text \<open>
  The invariant of sequential runs: besides \<open>category_inv\<close>, at most one lookup is
  pending, and while one is pending nothing is selected and no category is stored.
\<close>

definition lookup_inv :: "config \<Rightarrow> bool" where
  "lookup_inv s =
     (category_inv s \<and> length (pending s) \<le> 1
      \<and> (pending s \<noteq> [] \<longrightarrow> categoryId s = [] \<and> categories s = []))"

section \<open>The debouncer (\<open>useDebounce\<close> of lib/hooks, not among the sources)\<close>

text \<open>
  Modelled from the spec: the state of the Debouncer of section 4.1, whose code
  (\<open>useDebounce\<close>) is missing. It has a fixed quiescence interval, at most one scheduled
  emission (the deadline and the value to emit), and the log of the settled values
  emitted so far with their times. Time is a natural number of time units.
\<close>

record 'a debouncer =
  interval :: nat
  timer :: "(nat \<times> 'a) option"
  emitted :: "(nat \<times> 'a) list"

text \<open>Modelled from the spec: a fresh debouncer, nothing scheduled, nothing emitted.\<close>

definition new_debouncer :: "nat \<Rightarrow> 'a debouncer" where
  "new_debouncer i = \<lparr> interval = i, timer = None, emitted = [] \<rparr>"

text \<open>
  Modelled from the spec: time passes up to \<open>now\<close>. "Emits a new settled value only
  after no new update has arrived for the full interval": the scheduled emission
  happens once its deadline is reached.
\<close>

definition advance_to :: "nat \<Rightarrow> 'a debouncer \<Rightarrow> 'a debouncer" where
  "advance_to now d =
     (case timer d of
        None \<Rightarrow> d
      | Some (deadline, v) \<Rightarrow>
          if deadline \<le> now then d\<lparr> timer := None, emitted := emitted d @ [(deadline, v)] \<rparr>
          else d)"

text \<open>
  Modelled from the spec: a value update arriving at time \<open>t\<close>. "Every update before
  that resets the wait": the scheduled emission, if still waiting, is replaced by one
  for the new value, a full interval after \<open>t\<close>.
\<close>

definition update :: "nat \<Rightarrow> 'a \<Rightarrow> 'a debouncer \<Rightarrow> 'a debouncer" where
  "update t v d = (advance_to t d)\<lparr> timer := Some (t + interval d, v) \<rparr>"

text \<open>
  Modelled from the spec: "On unmount/cancellation, any pending emission must be
  discarded."
\<close>

definition cancel :: "'a debouncer \<Rightarrow> 'a debouncer" where
  "cancel d = d\<lparr> timer := None \<rparr>"

text \<open>Modelled from the spec: a stream of updates, each with its arrival time.\<close>

fun feed :: "(nat \<times> 'a) list \<Rightarrow> 'a debouncer \<Rightarrow> 'a debouncer" where
  "feed [] d = d"
| "feed (u # us) d = feed us (update (fst u) (snd u) d)"

text \<open>
  Modelled from the spec: "a sequence of value updates spaced shorter than the
  quiescence interval": arrival times do not decrease, and each update arrives less
  than the interval after the one before.
\<close>

fun spaced :: "nat \<Rightarrow> (nat \<times> 'a) list \<Rightarrow> bool" where
  "spaced i [] = True"
| "spaced i [u] = True"
| "spaced i (u # u' # us) = (fst u \<le> fst u' \<and> fst u' < fst u + i \<and> spaced i (u' # us))"

section \<open>Properties of the component\<close>

lemmas handler_defs = useEffect_body_def dRepository_change_def getCategories_def
  then_handler_def catch_handler_def then_stage_def catch_stage_def lookup_chain_def settle_def
  repository_onChange_def category_onChange_def mapping_onChange_def term_onChange_def

text \<open>
  The effect also runs when the component mounts, with the initial, empty
  \<open>dRepository\<close>: it makes no call and leaves the initial state as it is.
\<close>

lemma mount_effect: "useEffect_body init_config = init_config"
  by (simp add: useEffect_body_def init_config_def)

subsection \<open>Mapping and term\<close>

text \<open>
  C5. Every mapping change through the radio handler leaves the stored term empty, also
  when the chosen mapping is the current one; in particular, typing \<open>42\<close> under the
  mapping \<open>number\<close>, then choosing \<open>pathname\<close> and \<open>number\<close> again, leaves the term
  empty (and the mapping \<open>number\<close>).
\<close>

theorem mapping_change_clears_term:
  "term_str (mapping_onChange v s) = []
   \<and> term_str (mapping_onChange (mapping s) s) = []
   \<and> term_str (mapping_onChange ''number'' (mapping_onChange ''pathname''
        (term_onChange ''42'' (s\<lparr> mapping := ''number'' \<rparr>)))) = []
   \<and> mapping (mapping_onChange ''number'' (mapping_onChange ''pathname''
        (term_onChange ''42'' (s\<lparr> mapping := ''number'' \<rparr>)))) = ''number''"
  by (simp add: mapping_onChange_def term_onChange_def)

theorem mapping_change_clears_term_witness:
  "term_str (term_onChange ''42'' (init_config\<lparr> mapping := ''number'' \<rparr>)) = ''42''
   \<and> term_str (mapping_onChange ''number'' (mapping_onChange ''pathname''
        (term_onChange ''42'' (init_config\<lparr> mapping := ''number'' \<rparr>)))) = []"
  using mapping_change_clears_term [of "''number''" init_config]
  by (simp add: term_onChange_def)

subsection \<open>The snippet\<close>

text \<open>
  C6. The snippet has a \<open>data-term\<close> attribute line if and only if the mapping is
  \<open>specific\<close> or \<open>number\<close>; under every other mapping no line of that name is rendered
  at all.
\<close>

theorem data_term_line_iff:
  "(''data-term'' \<in> set (map fst (snippet_attrs s dc)))
     = (mapping s = ''specific'' \<or> mapping s = ''number'')"
  by (auto simp add: snippet_attrs_def needs_term_def)

theorem data_term_line_iff_witness:
  "''data-term'' \<in> set (map fst (snippet_attrs (init_config\<lparr> mapping := ''number'' \<rparr>)
        \<lparr> theme = ''light'', reactionsEnabled = True \<rparr>))
   \<and> ''data-term'' \<notin> set (map fst (snippet_attrs init_config
        \<lparr> theme = ''light'', reactionsEnabled = True \<rparr>))"
  using data_term_line_iff [of "init_config\<lparr> mapping := ''number'' \<rparr>"
      "\<lparr> theme = ''light'', reactionsEnabled = True \<rparr>"]
    data_term_line_iff [of init_config "\<lparr> theme = ''light'', reactionsEnabled = True \<rparr>"]
  by (simp add: init_config_def)

text \<open>
  C7. The values shown for \<open>data-repo\<close>, \<open>data-repo-id\<close>, \<open>data-category-id\<close> and
  \<open>data-term\<close> are never the empty string: an empty repository, repositoryId,
  categoryId or (when the mapping needs a term) term is shown as its placeholder, and
  the four placeholders are pairwise different.
\<close>

theorem unresolved_fields_render_placeholders:
  "((n, v) \<in> set (snippet_attrs s dc)
      \<and> n \<in> {''data-repo'', ''data-repo-id'', ''data-category-id'', ''data-term''}
     \<longrightarrow> v \<noteq> [])
   \<and> (repository s = [] \<longrightarrow> attr_value ''data-repo'' s dc = Some ''[ENTER REPO HERE]'')
   \<and> (repositoryId s = []
        \<longrightarrow> attr_value ''data-repo-id'' s dc = Some ''[ENTER REPO ID HERE]'')
   \<and> (categoryId s = []
        \<longrightarrow> attr_value ''data-category-id'' s dc = Some ''[ENTER CATEGORY ID HERE]'')
   \<and> (needs_term (mapping s) \<and> term_str s = []
        \<longrightarrow> attr_value ''data-term'' s dc = Some ''[ENTER TERM HERE]'')
   \<and> (repository s = [] \<and> repositoryId s = [] \<and> categoryId s = []
        \<and> needs_term (mapping s) \<and> term_str s = []
        \<longrightarrow> distinct (map (\<lambda>a. attr_value a s dc)
              [''data-repo'', ''data-repo-id'', ''data-category-id'', ''data-term'']))"
  by (auto simp add: attr_value_def snippet_attrs_def or_else_def split: if_splits)

theorem unresolved_fields_render_placeholders_witness:
  "repository (init_config\<lparr> mapping := ''specific'' \<rparr>) = []
   \<and> repositoryId (init_config\<lparr> mapping := ''specific'' \<rparr>) = []
   \<and> categoryId (init_config\<lparr> mapping := ''specific'' \<rparr>) = []
   \<and> needs_term (mapping (init_config\<lparr> mapping := ''specific'' \<rparr>))
   \<and> term_str (init_config\<lparr> mapping := ''specific'' \<rparr>) = []
   \<and> (''data-term'', ''[ENTER TERM HERE]'')
        \<in> set (snippet_attrs (init_config\<lparr> mapping := ''specific'' \<rparr>)
            \<lparr> theme = ''light'', reactionsEnabled = False \<rparr>)
   \<and> ''[ENTER TERM HERE]'' \<noteq> []
   \<and> map (\<lambda>a. attr_value a (init_config\<lparr> mapping := ''specific'' \<rparr>)
            \<lparr> theme = ''light'', reactionsEnabled = False \<rparr>)
        [''data-repo'', ''data-repo-id'', ''data-category-id'', ''data-term'']
      = [Some ''[ENTER REPO HERE]'', Some ''[ENTER REPO ID HERE]'',
         Some ''[ENTER CATEGORY ID HERE]'', Some ''[ENTER TERM HERE]'']"
  using unresolved_fields_render_placeholders [of "''data-term''" "''[ENTER TERM HERE]''"
      "init_config\<lparr> mapping := ''specific'' \<rparr>" "\<lparr> theme = ''light'', reactionsEnabled = False \<rparr>"]
  by (simp add: init_config_def needs_term_def snippet_attrs_def or_else_def)

subsection \<open>Starting and clearing a lookup\<close>

text \<open>
  C2. When the settled identifier changes to a non-empty value, the effect clears
  repositoryId, categoryId and categories at once: in the state it leaves, the three are
  empty while the new call of \<open>getCategories\<close> has just been logged and is still
  pending, so no result of it has been applied; the display is the spinner.
\<close>

theorem new_lookup_clears_eagerly:
  "v \<noteq> [] \<Longrightarrow> v \<noteq> dRepository s \<Longrightarrow>
   repositoryId (dRepository_change v s) = []
   \<and> categoryId (dRepository_change v s) = []
   \<and> categories (dRepository_change v s) = []
   \<and> calls (dRepository_change v s) = calls s @ [v]
   \<and> pending (dRepository_change v s) = pending s @ [length (calls s)]
   \<and> validation_state (dRepository_change v s) = Pending"
  by (simp add: handler_defs validation_state_def Let_def)

theorem new_lookup_clears_eagerly_witness:
  "''octo/demo'' \<noteq> [] \<and> ''octo/demo'' \<noteq> dRepository init_config
   \<and> categories (dRepository_change ''octo/demo'' init_config) = []
   \<and> calls (dRepository_change ''octo/demo'' init_config) = [''octo/demo'']
   \<and> pending (dRepository_change ''octo/demo'' init_config) = [0]
   \<and> validation_state (dRepository_change ''octo/demo'' init_config) = Pending"
proof -
  have h: "''octo/demo'' \<noteq> []" "''octo/demo'' \<noteq> dRepository init_config"
    by (simp_all add: init_config_def)
  from new_lookup_clears_eagerly [OF h] h show ?thesis
    by (simp add: init_config_def)
qed

text \<open>
  C10. When the settled identifier becomes the empty string, the effect makes no call of
  \<open>getCategories\<close> (the log and the pending list are unchanged) and leaves the error
  flag false and repositoryId, categoryId and categories empty: the display is idle.
\<close>

theorem empty_identifier_resets:
  "dRepository s \<noteq> [] \<Longrightarrow>
   calls (dRepository_change [] s) = calls s
   \<and> pending (dRepository_change [] s) = pending s
   \<and> error (dRepository_change [] s) = False
   \<and> repositoryId (dRepository_change [] s) = []
   \<and> categoryId (dRepository_change [] s) = []
   \<and> categories (dRepository_change [] s) = []
   \<and> validation_state (dRepository_change [] s) = Idle"
  by (simp add: handler_defs validation_state_def)

theorem empty_identifier_resets_witness:
  "dRepository (catch_handler (dRepository_change ''octo/demo'' init_config)) \<noteq> []
   \<and> error (catch_handler (dRepository_change ''octo/demo'' init_config))
   \<and> error (dRepository_change []
        (catch_handler (dRepository_change ''octo/demo'' init_config))) = False
   \<and> calls (dRepository_change []
        (catch_handler (dRepository_change ''octo/demo'' init_config))) = [''octo/demo'']
   \<and> validation_state (dRepository_change []
        (catch_handler (dRepository_change ''octo/demo'' init_config))) = Idle"
proof -
  have h: "dRepository (catch_handler (dRepository_change ''octo/demo'' init_config)) \<noteq> []"
    by (simp add: handler_defs init_config_def)
  from empty_identifier_resets [OF h] h show ?thesis
    by (simp add: handler_defs init_config_def)
qed

subsection \<open>Lookup outcomes\<close>

text \<open>
  C4, as the code has it. A lookup that succeeds with a non-empty repositoryId and an
  empty category list ends in the error display, the display of a failed lookup, and
  not in the success display.
\<close>

theorem zero_categories_shows_error:
  "res_repositoryId r \<noteq> [] \<Longrightarrow> res_categories r = [] \<Longrightarrow>
   validation_state (settle k (Inr r :: 'e + lookup_result) s) = Error
   \<and> validation_state (settle k (Inl e :: 'e + lookup_result) s) = Error"
  by (simp add: handler_defs validation_state_def)

theorem zero_categories_shows_error_witness:
  "res_repositoryId \<lparr> res_repositoryId = ''R_1'', res_categories = [] \<rparr> \<noteq> []
   \<and> res_categories \<lparr> res_repositoryId = ''R_1'', res_categories = [] \<rparr> = []
   \<and> validation_state (settle 0
        (Inr \<lparr> res_repositoryId = ''R_1'', res_categories = [] \<rparr> :: string + lookup_result)
        (dRepository_change ''octo/demo'' init_config)) = Error"
proof -
  have h: "res_repositoryId \<lparr> res_repositoryId = ''R_1'', res_categories = [] \<rparr> \<noteq> []"
    "res_categories \<lparr> res_repositoryId = ''R_1'', res_categories = [] \<rparr> = []"
    by simp_all
  from zero_categories_shows_error [OF h, where k = 0 and e = "''timeout''"
      and s = "dRepository_change ''octo/demo'' init_config"] h
  show ?thesis by simp
qed

text \<open>
  C4 as stated fails: a lookup that succeeds with the empty string as repositoryId and
  no category leaves the spinner of a pending lookup, not the error display.
\<close>

theorem zero_categories_empty_id_counterexample:
  "validation_state (settle 0
      (Inr \<lparr> res_repositoryId = [], res_categories = [] \<rparr> :: string + lookup_result)
      (dRepository_change ''octo/demo'' init_config)) = Pending"
  by (simp add: handler_defs validation_state_def init_config_def)

text \<open>
  C8. A rejected lookup, whatever the reason, is handled by the chain: no rejection is
  left unhandled, the error flag is set, the display is the error display, and no call
  of \<open>getCategories\<close> is made. A call is made by no event other than a change of the
  settled identifier to a new non-empty value.
\<close>

theorem lookup_failure_is_caught:
  "fst (lookup_chain (Inl e) s) = None
   \<and> error (settle k (Inl e) s)
   \<and> validation_state (settle k (Inl e) s) = Error
   \<and> calls (settle k (Inl e) s) = calls s
   \<and> set (pending (settle k (Inl e) s)) = set (pending s) - {k}
   \<and> (calls (fire ev s) \<noteq> calls s
        \<longrightarrow> (\<exists>v. ev = DRepositoryChange v \<and> v \<noteq> [] \<and> v \<noteq> dRepository s))"
  by (cases ev) (auto simp add: handler_defs validation_state_def Let_def split: sum.splits)

theorem lookup_failure_is_caught_witness:
  "calls (fire (DRepositoryChange ''octo/demo'' :: string event) init_config) \<noteq> calls init_config
   \<and> fst (lookup_chain (Inl ''network'' :: string + lookup_result)
        (dRepository_change ''octo/demo'' init_config)) = None
   \<and> validation_state (settle 0 (Inl ''network'' :: string + lookup_result)
        (dRepository_change ''octo/demo'' init_config)) = Error
   \<and> calls (settle 0 (Inl ''network'' :: string + lookup_result)
        (dRepository_change ''octo/demo'' init_config)) = [''octo/demo'']"
proof -
  have h: "calls (fire (DRepositoryChange ''octo/demo'' :: string event) init_config)
      \<noteq> calls init_config"
    by (simp add: handler_defs init_config_def)
  from lookup_failure_is_caught [where e = "''network''" and k = 0
      and s = "dRepository_change ''octo/demo'' init_config"
      and ev = "DRepositoryChange ''octo/demo'' :: string event"] h
  show ?thesis by (simp add: handler_defs init_config_def)
qed

subsection \<open>Overlapping lookups\<close>

text \<open>
  Two changes of the settled identifier in a row, to \<open>A\<close> and then to \<open>B\<close>: both calls
  are logged and pending, and the state is the cleared one of the second run of the
  effect.
\<close>

lemma two_lookups:
  assumes "A \<noteq> []" and "B \<noteq> []" and "A \<noteq> B" and "dRepository s \<noteq> A"
  shows "dRepository_change B (dRepository_change A s) =
     s\<lparr> error := False, repositoryId := [], categoryId := [], categories := [],
        dRepository := B, calls := calls s @ [A, B],
        pending := pending s @ [length (calls s), Suc (length (calls s))] \<rparr>"
  using assms by (simp add: handler_defs Let_def)

text \<open>
  C1, as the code has it. Results are applied in the order they arrive, with no check
  against the settled identifier. When the result of the lookup for \<open>A\<close> arrives after
  the lookup for \<open>B\<close> was issued and before that one settles, a success stores the
  repositoryId and the categories of \<open>A\<close> (categoryId stays empty, the error flag
  false) and a failure sets the error flag; \<open>dRepository\<close> stays \<open>B\<close> and the lookup
  for \<open>B\<close> stays pending. When the lookup for \<open>B\<close> succeeds afterwards, repositoryId
  and categories become those of \<open>B\<close>.
\<close>

theorem stale_result_is_applied:
  fixes e :: 'e and outcome :: "'e + lookup_result"
  assumes "A \<noteq> []" and "B \<noteq> []" and "A \<noteq> B" and "dRepository s \<noteq> A"
  shows "let sB = dRepository_change B (dRepository_change A s);
             kA = length (calls s); kB = Suc (length (calls s));
             ok = (Inr r :: 'e + lookup_result); ok' = (Inr r' :: 'e + lookup_result)
         in calls sB = calls s @ [A, B] \<and> pending sB = pending s @ [kA, kB]
          \<and> repositoryId (settle kA ok sB) = res_repositoryId r
          \<and> categories (settle kA ok sB) = res_categories r
          \<and> categoryId (settle kA ok sB) = []
          \<and> error (settle kA ok sB) = False
          \<and> error (settle kA (Inl e) sB) = True
          \<and> validation_state (settle kA (Inl e) sB) = Error
          \<and> dRepository (settle kA outcome sB) = B
          \<and> kB \<in> set (pending (settle kA outcome sB))
          \<and> repositoryId (settle kB ok' (settle kA outcome sB)) = res_repositoryId r'
          \<and> categories (settle kB ok' (settle kA outcome sB)) = res_categories r'"
  unfolding two_lookups [OF assms] Let_def
  by (cases outcome) (simp_all add: settle_def lookup_chain_def then_stage_def catch_stage_def
       then_handler_def catch_handler_def validation_state_def)

theorem stale_result_is_applied_witness:
  "''a/a'' \<noteq> [] \<and> ''b/b'' \<noteq> [] \<and> ''a/a'' \<noteq> ''b/b'' \<and> dRepository init_config \<noteq> ''a/a''
   \<and> repositoryId (settle 0
        (Inr \<lparr> res_repositoryId = ''R_A'', res_categories = [] \<rparr> :: string + lookup_result)
        (dRepository_change ''b/b'' (dRepository_change ''a/a'' init_config))) = ''R_A''
   \<and> error (settle 0 (Inl ''timeout'' :: string + lookup_result)
        (dRepository_change ''b/b'' (dRepository_change ''a/a'' init_config)))"
proof -
  have h: "''a/a'' \<noteq> []" "''b/b'' \<noteq> []" "''a/a'' \<noteq> ''b/b''"
    "dRepository init_config \<noteq> ''a/a''"
    by (simp_all add: init_config_def)
  from stale_result_is_applied [OF h,
      where r = "\<lparr> res_repositoryId = ''R_A'', res_categories = [] \<rparr>"
      and e = "''timeout''" and outcome = "Inl ''timeout''"
      and r' = "\<lparr> res_repositoryId = ''R_B'', res_categories = [] \<rparr>"] h
  show ?thesis by (simp add: Let_def init_config_def)
qed

text \<open>
  C1 as stated fails. The identifier \<open>a/a\<close> settles, then \<open>b/b\<close>; at that point the
  display is the spinner and repositoryId is empty. The lookup for \<open>a/a\<close> (call 0)
  then succeeds: the display becomes the success display with the repositoryId of
  \<open>a/a\<close>, while \<open>dRepository\<close> is \<open>b/b\<close> and the lookup for \<open>b/b\<close> (call 1) is
  still pending.
\<close>

theorem stale_result_counterexample:
  "map_option validation_state
     (run [DRepositoryChange ''a/a'', DRepositoryChange ''b/b'' :: string event]
        init_config) = Some Pending
   \<and> map_option repositoryId
     (run [DRepositoryChange ''a/a'', DRepositoryChange ''b/b'' :: string event]
        init_config) = Some []
   \<and> map_option validation_state
     (run [DRepositoryChange ''a/a'', DRepositoryChange ''b/b'',
           LookupSettled 0 (Inr \<lparr> res_repositoryId = ''R_A'', res_categories =
             [\<lparr> cat_id = ''C_A'', emoji = '':)'', name = ''General'' \<rparr>] \<rparr>) :: string event]
        init_config) = Some Success
   \<and> map_option repositoryId
     (run [DRepositoryChange ''a/a'', DRepositoryChange ''b/b'',
           LookupSettled 0 (Inr \<lparr> res_repositoryId = ''R_A'', res_categories =
             [\<lparr> cat_id = ''C_A'', emoji = '':)'', name = ''General'' \<rparr>] \<rparr>) :: string event]
        init_config) = Some ''R_A''
   \<and> map_option dRepository
     (run [DRepositoryChange ''a/a'', DRepositoryChange ''b/b'',
           LookupSettled 0 (Inr \<lparr> res_repositoryId = ''R_A'', res_categories =
             [\<lparr> cat_id = ''C_A'', emoji = '':)'', name = ''General'' \<rparr>] \<rparr>) :: string event]
        init_config) = Some ''b/b''
   \<and> map_option pending
     (run [DRepositoryChange ''a/a'', DRepositoryChange ''b/b'',
           LookupSettled 0 (Inr \<lparr> res_repositoryId = ''R_A'', res_categories =
             [\<lparr> cat_id = ''C_A'', emoji = '':)'', name = ''General'' \<rparr>] \<rparr>) :: string event]
        init_config) = Some [1]"
  by (simp add: handler_defs init_config_def validation_state_def)

subsection \<open>The selected category\<close>

lemma removeAll_single: "length xs \<le> 1 \<Longrightarrow> k \<in> set xs \<Longrightarrow> removeAll k xs = []"
  by (cases xs) auto

lemma settle_fields:
  "categoryId (settle k outcome s) = categoryId s"
  "pending (settle k outcome s) = removeAll k (pending s)"
  by (simp_all add: handler_defs split: sum.splits)

text \<open>One event of a sequential run keeps the invariant.\<close>

lemma fire_lookup_inv:
  assumes "enabled e s" and "lookup_inv s" and "length (pending (fire e s)) \<le> 1"
  shows "lookup_inv (fire e s)"
proof (cases e)
  case (LookupSettled k outcome)
  with assms(1) have "k \<in> set (pending s)" by simp
  with assms(2) have "categoryId s = []" and "removeAll k (pending s) = []"
    by (auto simp: lookup_inv_def removeAll_single)
  with LookupSettled show ?thesis
    by (simp add: lookup_inv_def category_inv_def settle_fields)
next
  case (DRepositoryChange v)
  with assms(2,3) show ?thesis
    by (auto simp: lookup_inv_def category_inv_def handler_defs Let_def split: if_splits)
next
  case (CategorySelect v)
  with assms(1,2) show ?thesis
    by (auto simp: lookup_inv_def category_inv_def handler_defs)
qed (insert assms(2), simp_all add: lookup_inv_def category_inv_def handler_defs)

lemma run_lookup_inv:
  "run es s = Some s' \<Longrightarrow> sequential es s \<Longrightarrow> lookup_inv s \<Longrightarrow> lookup_inv s'"
proof (induction es arbitrary: s)
  case Nil
  then show ?case by simp
next
  case (Cons e es)
  from Cons.prems(1) have en: "enabled e s" and rest: "run es (fire e s) = Some s'"
    by (simp_all split: if_splits)
  from Cons.prems(2) have one: "length (pending (fire e s)) \<le> 1"
    and seq: "sequential es (fire e s)"
    by simp_all
  from en Cons.prems(3) one have "lookup_inv (fire e s)" by (rule fire_lookup_inv)
  with Cons.IH rest seq show ?case by blast
qed

lemma init_lookup_inv: "lookup_inv init_config"
  by (simp add: lookup_inv_def category_inv_def init_config_def)

text \<open>
  C3, as the code has it. In every state reached by a sequential run (every result
  arrives before the next lookup is issued) the selected category id is empty or the id
  of a stored category. Every run of the effect, hence every start of a lookup, resets
  the selected id to empty; the completion of a lookup leaves the selected id as it is.
\<close>

theorem category_id_valid_on_sequential_runs:
  "(run es init_config = Some s \<and> sequential es init_config \<longrightarrow> category_inv s)
   \<and> categoryId (useEffect_body s0) = []
   \<and> categoryId (settle k outcome s0) = categoryId s0"
proof -
  have "category_inv s" if "run es init_config = Some s" and "sequential es init_config"
    using run_lookup_inv [OF that init_lookup_inv] by (simp add: lookup_inv_def)
  moreover have "categoryId (useEffect_body s0) = []"
    by (simp add: handler_defs Let_def)
  ultimately show ?thesis by (simp add: settle_fields)
qed

theorem category_id_valid_on_sequential_runs_witness:
  "run [DRepositoryChange ''octo/demo'',
        LookupSettled 0 (Inr \<lparr> res_repositoryId = ''R_1'', res_categories =
          [\<lparr> cat_id = ''C_1'', emoji = '':)'', name = ''General'' \<rparr>] \<rparr>),
        CategorySelect ''C_1'' :: string event] init_config
     = Some \<lparr> repository = [], repositoryId = ''R_1'', categoryId = ''C_1'', error = False,
         categories = [\<lparr> cat_id = ''C_1'', emoji = '':)'', name = ''General'' \<rparr>],
         mapping = ''pathname'', term_str = [], dRepository = ''octo/demo'',
         calls = [''octo/demo''], pending = [] \<rparr>
   \<and> sequential [DRepositoryChange ''octo/demo'',
        LookupSettled 0 (Inr \<lparr> res_repositoryId = ''R_1'', res_categories =
          [\<lparr> cat_id = ''C_1'', emoji = '':)'', name = ''General'' \<rparr>] \<rparr>),
        CategorySelect ''C_1'' :: string event] init_config
   \<and> category_inv \<lparr> repository = [], repositoryId = ''R_1'', categoryId = ''C_1'',
         error = False,
         categories = [\<lparr> cat_id = ''C_1'', emoji = '':)'', name = ''General'' \<rparr>],
         mapping = ''pathname'', term_str = [], dRepository = ''octo/demo'',
         calls = [''octo/demo''], pending = [] \<rparr>"
proof -
  let ?es = "[DRepositoryChange ''octo/demo'',
        LookupSettled 0 (Inr \<lparr> res_repositoryId = ''R_1'', res_categories =
          [\<lparr> cat_id = ''C_1'', emoji = '':)'', name = ''General'' \<rparr>] \<rparr>),
        CategorySelect ''C_1'' :: string event]"
  let ?s = "\<lparr> repository = [], repositoryId = ''R_1'', categoryId = ''C_1'', error = False,
         categories = [\<lparr> cat_id = ''C_1'', emoji = '':)'', name = ''General'' \<rparr>],
         mapping = ''pathname'', term_str = [], dRepository = ''octo/demo'',
         calls = [''octo/demo''], pending = [] \<rparr>"
  have r: "run ?es init_config = Some ?s"
    by (simp add: handler_defs init_config_def)
  have q: "sequential ?es init_config"
    by (simp add: handler_defs init_config_def)
  from category_id_valid_on_sequential_runs [of ?es ?s] r q have "category_inv ?s"
    by blast
  with r q show ?thesis by blast
qed

text \<open>
  C3 as stated fails. Two lookups overlap: the one for \<open>b/b\<close> (call 1) succeeds first
  and the user selects its category \<open>C_B\<close>; then the one for \<open>a/a\<close> (call 0) succeeds
  and replaces the list. The selected id \<open>C_B\<close> is kept, and it is neither empty nor
  the id of a stored category.
\<close>

theorem category_id_stale_counterexample:
  "map_option category_inv
     (run [DRepositoryChange ''a/a'', DRepositoryChange ''b/b'',
           LookupSettled 1 (Inr \<lparr> res_repositoryId = ''R_B'', res_categories =
             [\<lparr> cat_id = ''C_B'', emoji = '':)'', name = ''General'' \<rparr>] \<rparr>),
           CategorySelect ''C_B'',
           LookupSettled 0 (Inr \<lparr> res_repositoryId = ''R_A'', res_categories =
             [\<lparr> cat_id = ''C_A'', emoji = '':)'', name = ''General'' \<rparr>] \<rparr>) :: string event]
        init_config) = Some False
   \<and> map_option categoryId
     (run [DRepositoryChange ''a/a'', DRepositoryChange ''b/b'',
           LookupSettled 1 (Inr \<lparr> res_repositoryId = ''R_B'', res_categories =
             [\<lparr> cat_id = ''C_B'', emoji = '':)'', name = ''General'' \<rparr>] \<rparr>),
           CategorySelect ''C_B'',
           LookupSettled 0 (Inr \<lparr> res_repositoryId = ''R_A'', res_categories =
             [\<lparr> cat_id = ''C_A'', emoji = '':)'', name = ''General'' \<rparr>] \<rparr>) :: string event]
        init_config) = Some ''C_B''
   \<and> map_option (map cat_id \<circ> categories)
     (run [DRepositoryChange ''a/a'', DRepositoryChange ''b/b'',
           LookupSettled 1 (Inr \<lparr> res_repositoryId = ''R_B'', res_categories =
             [\<lparr> cat_id = ''C_B'', emoji = '':)'', name = ''General'' \<rparr>] \<rparr>),
           CategorySelect ''C_B'',
           LookupSettled 0 (Inr \<lparr> res_repositoryId = ''R_A'', res_categories =
             [\<lparr> cat_id = ''C_A'', emoji = '':)'', name = ''General'' \<rparr>] \<rparr>) :: string event]
        init_config) = Some [''C_A'']"
  by (simp add: handler_defs init_config_def category_inv_def)

section \<open>Properties of the debouncer\<close>

text \<open>
  While the updates keep coming within the interval, nothing is emitted and the one
  scheduled emission is that of the latest update.
\<close>

lemma feed_spaced:
  "spaced (interval d) (u # us) \<Longrightarrow> timer d = Some (fst u + interval d, snd u) \<Longrightarrow>
   feed us d = d\<lparr> timer := Some (fst (last (u # us)) + interval d, snd (last (u # us))) \<rparr>"
proof (induction us arbitrary: u d)
  case Nil
  then show ?case by simp
next
  case (Cons u' us)
  let ?d' = "update (fst u') (snd u') d"
  from Cons.prems have gap: "fst u' < fst u + interval d"
    and rest: "spaced (interval d) (u' # us)"
    by simp_all
  from gap Cons.prems(2) have d': "?d' = d\<lparr> timer := Some (fst u' + interval d, snd u') \<rparr>"
    by (simp add: update_def advance_to_def)
  then have "interval ?d' = interval d" and "timer ?d' = Some (fst u' + interval ?d', snd u')"
    by simp_all
  with rest Cons.IH [where u = u' and d = ?d']
  have "feed us ?d' =
      ?d'\<lparr> timer := Some (fst (last (u' # us)) + interval ?d', snd (last (u' # us))) \<rparr>"
    by simp
  with d' show ?case by simp
qed

text \<open>
  C9. A non-empty sequence of updates, each arriving less than the interval after the
  one before, is fed to a fresh debouncer, and time then passes up to \<open>T\<close>. Until a
  full interval has passed since the last update nothing has been emitted; from then
  on exactly one value has been emitted, the value of the last update, at the time of
  the last update plus the interval.
\<close>

theorem debounce_coalescing:
  assumes "us \<noteq> []" and "spaced i us"
  shows "emitted (advance_to T (feed us (new_debouncer i))) =
     (if fst (last us) + i \<le> T then [(fst (last us) + i, snd (last us))] else [])"
proof -
  from assms(1) obtain u rest where us: "us = u # rest" by (cases us) auto
  let ?d = "update (fst u) (snd u) (new_debouncer i)"
  have d: "?d = \<lparr> interval = i, timer = Some (fst u + i, snd u), emitted = [] \<rparr>"
    by (simp add: update_def advance_to_def new_debouncer_def)
  with assms(2) us feed_spaced [of ?d u rest]
  have "feed rest ?d = ?d\<lparr> timer := Some (fst (last us) + i, snd (last us)) \<rparr>"
    by simp
  with us d show ?thesis
    by (simp add: advance_to_def)
qed

theorem debounce_coalescing_witness:
  "[(0, ''a''), (100, ''ab''), (250, ''abc'')] \<noteq> []
   \<and> spaced 500 [(0, ''a''), (100, ''ab''), (250, ''abc'')]
   \<and> emitted (advance_to 749 (feed [(0, ''a''), (100, ''ab''), (250, ''abc'')]
        (new_debouncer 500))) = []
   \<and> emitted (advance_to 1000 (feed [(0, ''a''), (100, ''ab''), (250, ''abc'')]
        (new_debouncer 500))) = [(750, ''abc'')]"
proof -
  have h: "[(0::nat, ''a''), (100, ''ab''), (250, ''abc'')] \<noteq> []"
    "spaced 500 [(0::nat, ''a''), (100, ''ab''), (250, ''abc'')]"
    by simp_all
  from debounce_coalescing [OF h, of 749] debounce_coalescing [OF h, of 1000] h
  show ?thesis by simp
qed

end
